theory Spec2Isabelle
  imports Complex_Main
begin

section \<open>Data model (types.ts)\<close>

text \<open>
  The program is TypeScript; every numeric field is a JavaScript \<open>number\<close>.
  The counters the program only ever adds or subtracts 1 (or 15) to, and the
  generator's seed, are modelled as \<open>int\<close>; coordinates and velocities as
  \<open>real\<close>.  The generator's arithmetic is double arithmetic with the rounding
  of every operation written out: \<open>round_double\<close> on integers, \<open>to_double\<close> on
  reals.
  The field \<open>x\<close> of a pipe is called \<open>pipeX\<close>, the field \<open>id\<close> of a ghost
  \<open>ghostId\<close>, and the fields of the fold's accumulator carry the prefix
  \<open>acc_\<close> where they repeat a name of the state.
\<close>

definition CANVAS_WIDTH :: real where [simp]: "CANVAS_WIDTH = 600"
definition CANVAS_HEIGHT :: real where [simp]: "CANVAS_HEIGHT = 400"
definition BIRB_WIDTH :: real where [simp]: "BIRB_WIDTH = 42"
definition BIRB_HEIGHT :: real where [simp]: "BIRB_HEIGHT = 30"
definition PIPE_WIDTH :: real where [simp]: "PIPE_WIDTH = 50"
definition TICK_RATE_MS :: real where [simp]: "TICK_RATE_MS = 20"
definition GRAVITY :: real where [simp]: "GRAVITY = 1 / 2"
definition FLAP_FORCE :: real where [simp]: "FLAP_FORCE = - (11 / 2)"
definition MAX_VELOCITY :: real where [simp]: "MAX_VELOCITY = 10"
definition PIPE_SPEED :: real where [simp]: "PIPE_SPEED = 5"
definition INVULN_TICKS :: int where [simp]: "INVULN_TICKS = 15"

record Pipe =
  pipeX :: real
  gapY :: real
  gapHeight :: real
  passed :: bool

record Ghost =
  ghostId :: int
  ghostY :: "real option"
  active :: bool

record State =
  birdY :: real
  birdVY :: real
  pipes :: "Pipe list"
  lives :: int
  score :: int
  gameEnd :: bool
  paused :: bool
  rngSeed :: int
  tickCount :: int
  invulnUntil :: int
  ghosts :: "Ghost list"

definition initialState :: State where
  "initialState =
    \<lparr> birdY = CANVAS_HEIGHT / 2, birdVY = 0, pipes = [], lives = 3, score = 0,
      gameEnd = False, paused = False, rngSeed = 123456789, tickCount = 0,
      invulnUntil = 0, ghosts = [] \<rparr>"

section \<open>The generator (util.ts)\<close>

text \<open>
  \<open>RNG.hash\<close> is \<open>(a * seed + c) % m\<close> on doubles.  On integers a double
  product or sum is the exact result rounded to 53 significant bits, ties to
  even; \<open>%\<close> is exact and takes the sign of the dividend.  \<open>round_double\<close>
  is that rounding on integers (below the overflow threshold \<open>2 ^ 1024\<close>).
\<close>

function bit_length :: "int \<Rightarrow> nat" where
  "bit_length n = (if n \<le> 0 then 0 else Suc (bit_length (n div 2)))"
  by pat_completeness auto
termination
  by (relation "measure nat") auto

declare bit_length.simps [simp del]

definition round_double :: "int \<Rightarrow> int" where
  "round_double n =
    (let k = bit_length \<bar>n\<bar> in
     if k \<le> 53 then n
     else
       let q = 2 ^ (k - 53);
           d = \<bar>n\<bar> div q;
           r = \<bar>n\<bar> mod q;
           half = q div 2;
           d' = (if half < r \<or> (r = half \<and> odd d) then d + 1 else d)
       in sgn n * d' * q)"

definition js_rem :: "int \<Rightarrow> int \<Rightarrow> int" where
  "js_rem a b = sgn a * (\<bar>a\<bar> mod \<bar>b\<bar>)"

definition RNG_m :: int where [simp]: "RNG_m = 2147483648"
definition RNG_a :: int where [simp]: "RNG_a = 1103515245"
definition RNG_c :: int where [simp]: "RNG_c = 12345"

definition hash :: "int \<Rightarrow> int" where
  "hash seed = js_rem (round_double (round_double (RNG_a * seed) + RNG_c)) RNG_m"

text \<open>
  A double operation on reals is the exact result rounded to the nearest double,
  ties to even: \<open>to_double\<close>, for results below the overflow threshold.  The
  exponent \<open>e\<close> of \<open>a > 0\<close> is the one with \<open>2 ^ e \<le> a < 2 ^ (e + 1)\<close>, not
  below -1022 (the subnormal range); the result is a multiple of
  \<open>2 ^ (e - 52)\<close>.
\<close>

definition pow2 :: "int \<Rightarrow> real" where
  "pow2 e = (if 0 \<le> e then 2 ^ nat e else 1 / 2 ^ nat (- e))"

definition double_exponent :: "real \<Rightarrow> int" where
  "double_exponent a =
     (if 1 \<le> a then int (bit_length \<lfloor>a\<rfloor>) - 1
      else let k = bit_length \<lfloor>1 / a\<rfloor>
           in if a * 2 ^ (k - 1) = 1 then - int (k - 1) else - int k)"

definition to_double :: "real \<Rightarrow> real" where
  "to_double x =
     (if x = 0 then 0
      else
        let a = \<bar>x\<bar>;
            e = max (double_exponent a) (- 1022);
            q = pow2 (e - 52);
            t = a / q;
            d = \<lfloor>t\<rfloor>;
            r = t - of_int d;
            d' = (if 1 / 2 < r \<or> (r = 1 / 2 \<and> odd d) then d + 1 else d)
        in sgn x * of_int d' * q)"

text \<open>\<open>RNG.scale\<close> is \<open>(2 * hash) / (RNG.m - 1) - 1\<close>, four double operations.\<close>

definition scale :: "int \<Rightarrow> real" where
  "scale h =
     to_double
       (to_double (to_double (2 * real_of_int h) / to_double (real_of_int RNG_m - 1)) - 1)"

text \<open>
  \<open>rand\<close> and \<open>randBetween\<close> return an object \<open>{value | v, seed}\<close>: a pair
  here.  \<open>value01\<close> is \<open>(RNG.scale(next) + 1) / 2\<close> and \<open>v\<close> is
  \<open>min + (max - min) * r.value\<close>, each operation a double operation.
\<close>

definition rand :: "int \<Rightarrow> real \<times> int" where
  "rand seed =
     (let next = hash seed;
          value01 = to_double (to_double (scale next + 1) / 2)
      in (value01, next))"

definition randBetween :: "int \<Rightarrow> real \<Rightarrow> real \<Rightarrow> real \<times> int" where
  "randBetween seed mn mx =
     (let r = rand seed
      in (to_double (mn + to_double (to_double (mx - mn) * fst r)), snd r))"

section \<open>The reducers (state.ts)\<close>

definition moveBird :: "State \<Rightarrow> State" where
  "moveBird s =
    (if gameEnd s then s
     else
       let vyNext = (if birdVY s + GRAVITY > MAX_VELOCITY then MAX_VELOCITY
                     else birdVY s + GRAVITY);
           yNext = birdY s + vyNext;
           minY = 0;
           maxY = CANVAS_HEIGHT - BIRB_HEIGHT / 2;
           y' = (if minY > yNext then minY else if maxY < yNext then maxY else yNext);
           vy' = (if y' = minY \<or> y' = maxY then 0 else vyNext)
       in s\<lparr>birdY := y', birdVY := vy'\<rparr>)"

definition movePipes :: "State \<Rightarrow> State" where
  "movePipes s =
    s\<lparr>pipes := filter (\<lambda>p. pipeX p + PIPE_WIDTH > 0)
                  (map (\<lambda>p. p\<lparr>pipeX := pipeX p - PIPE_SPEED\<rparr>) (pipes s))\<rparr>"

text \<open>
  Bird geometry of \<open>checkPipes\<close>; the bird's vertical centre is the argument.
  The program's \<open>CANVAS_WIDTH * 0.3\<close> is 180 in doubles as it is here.
\<close>

definition birdX :: real where "birdX = CANVAS_WIDTH * (3 / 10)"
definition birdRight :: real where "birdRight = birdX + BIRB_WIDTH / 2"
definition birdLeft :: real where "birdLeft = birdX - BIRB_WIDTH / 2"
definition birdBottom :: "real \<Rightarrow> real" where "birdBottom y = y + BIRB_HEIGHT / 2"
definition birdTop :: "real \<Rightarrow> real" where "birdTop y = y - BIRB_HEIGHT / 2"

text \<open>The per-pipe quantities of the fold's callback.\<close>

definition pipeLeft :: "Pipe \<Rightarrow> real" where "pipeLeft p = pipeX p"
definition pipeRight :: "Pipe \<Rightarrow> real" where "pipeRight p = pipeX p + PIPE_WIDTH"
definition gapTop :: "Pipe \<Rightarrow> real" where "gapTop p = gapY p - gapHeight p / 2"
definition gapBottom :: "Pipe \<Rightarrow> real" where "gapBottom p = gapY p + gapHeight p / 2"

definition overlapsX :: "Pipe \<Rightarrow> bool" where
  "overlapsX p \<longleftrightarrow> birdRight \<ge> pipeLeft p \<and> birdLeft < pipeRight p"

definition outsideGap :: "real \<Rightarrow> Pipe \<Rightarrow> bool" where
  "outsideGap y p \<longleftrightarrow> birdTop y < gapTop p \<or> birdBottom y > gapBottom p"

definition collided :: "real \<Rightarrow> Pipe \<Rightarrow> bool" where
  "collided y p \<longleftrightarrow> overlapsX p \<and> outsideGap y p"

definition passedNow :: "real \<Rightarrow> Pipe \<Rightarrow> bool" where
  "passedNow y p \<longleftrightarrow> birdLeft > pipeRight p \<and> \<not> outsideGap y p"

record Acc =
  acc_score :: int
  acc_lives :: int
  acc_vy :: real
  acc_rngSeed :: int
  invulnUntilTick :: int
  acc_gameEnd :: bool
  lostLifeThisTick :: bool
  acc_pipes :: "Pipe list"

definition start :: "State \<Rightarrow> Acc" where
  "start s =
    \<lparr> acc_score = score s, acc_lives = lives s, acc_vy = birdVY s,
      acc_rngSeed = rngSeed s, invulnUntilTick = invulnUntil s,
      acc_gameEnd = False, lostLifeThisTick = False, acc_pipes = [] \<rparr>"

text \<open>The callback of \<open>s.pipes.reduce\<close>.\<close>

definition pipeStep :: "real \<Rightarrow> Acc \<Rightarrow> Pipe \<Rightarrow> Acc" where
  "pipeStep y acc p =
    (if passed p then acc\<lparr>acc_pipes := acc_pipes acc @ [p]\<rparr>
     else
       let hitTopHalf = (birdTop y < gapTop p);
           fixedBounceV = (if hitTopHalf then 6 else - 6);
           shouldLoseLife = (collided y p \<and> \<not> lostLifeThisTick acc);
           accLife = (if shouldLoseLife
                      then acc\<lparr>acc_lives := acc_lives acc - 1,
                               lostLifeThisTick := True,
                               acc_gameEnd := (acc_lives acc - 1 \<le> 0)\<rparr>
                      else acc);
           rr = (if shouldLoseLife
                 then randBetween (acc_rngSeed accLife)
                        (if hitTopHalf then 4 else - 8) (if hitTopHalf then 8 else - 4)
                 else (acc_vy accLife, acc_rngSeed accLife));
           accBounce = (if collided y p
                        then accLife\<lparr>acc_vy := (if shouldLoseLife then fst rr else fixedBounceV),
                                     acc_rngSeed := snd rr\<rparr>
                        else accLife);
           ps = acc_pipes accBounce @ [if passedNow y p then p\<lparr>passed := True\<rparr> else p];
           sc = acc_score accBounce + (if passedNow y p then 1 else 0)
       in accBounce\<lparr>acc_pipes := ps, acc_score := sc\<rparr>)"

definition afterPipes :: "State \<Rightarrow> Acc" where
  "afterPipes s = foldl (pipeStep (birdY s)) (start s) (pipes s)"

text \<open>The immediately invoked function \<open>world\<close>: world bounds, cooldown and bounce.\<close>

definition world :: "State \<Rightarrow> Acc \<Rightarrow> Acc" where
  "world s ap =
    (if acc_gameEnd ap then ap
     else
       let canLoseLife = (tickCount s \<ge> invulnUntilTick ap \<and> \<not> lostLifeThisTick ap) in
       if birdTop (birdY s) \<le> 0 then
         let lv = (if canLoseLife then acc_lives ap - 1 else acc_lives ap);
             ge = (if canLoseLife \<and> lv \<le> 0 then True else acc_gameEnd ap);
             iu = (if canLoseLife then tickCount s + INVULN_TICKS else invulnUntilTick ap);
             rr = randBetween (acc_rngSeed ap) 4 8
         in ap\<lparr>acc_lives := lv, acc_gameEnd := ge, invulnUntilTick := iu,
                acc_vy := fst rr, acc_rngSeed := snd rr\<rparr>
       else if birdBottom (birdY s) \<ge> CANVAS_HEIGHT then
         let lv = (if canLoseLife then acc_lives ap - 1 else acc_lives ap);
             ge = (if canLoseLife \<and> lv \<le> 0 then True else acc_gameEnd ap);
             iu = (if canLoseLife then tickCount s + INVULN_TICKS else invulnUntilTick ap);
             rr = randBetween (acc_rngSeed ap) (- 8) (- 4)
         in ap\<lparr>acc_lives := lv, acc_gameEnd := ge, invulnUntilTick := iu,
                acc_vy := fst rr, acc_rngSeed := snd rr\<rparr>
       else ap)"

definition checkPipes :: "State \<Rightarrow> State" where
  "checkPipes s =
    (if length (pipes s) = 0 then s\<lparr>gameEnd := True\<rparr>
     else
       let w = world s (afterPipes s)
       in s\<lparr>pipes := acc_pipes w, score := acc_score w, lives := acc_lives w,
             birdVY := acc_vy w, gameEnd := acc_gameEnd w, rngSeed := acc_rngSeed w,
             invulnUntil := invulnUntilTick w\<rparr>)"

text \<open>Either of the two contact tests of \<open>world\<close>.\<close>

definition worldContact :: "real \<Rightarrow> bool" where
  "worldContact y \<longleftrightarrow> birdTop y \<le> 0 \<or> birdBottom y \<ge> CANVAS_HEIGHT"

definition restartGame :: "State \<Rightarrow> Pipe list \<Rightarrow> State" where
  "restartGame s ps = initialState\<lparr>pipes := ps\<rparr>"

definition birdFlap :: "State \<Rightarrow> State" where
  "birdFlap s = s\<lparr>birdVY := FLAP_FORCE\<rparr>"

definition tick :: "State \<Rightarrow> State" where
  "tick s =
    (if gameEnd s \<or> paused s then s
     else
       let advanced = movePipes (moveBird s);
           afterCollisions = checkPipes advanced
       in afterCollisions\<lparr>tickCount := tickCount s + 1\<rparr>)"

section \<open>Input reducers (observable.ts)\<close>

definition flapR :: "State \<Rightarrow> State" where
  "flapR s = (if gameEnd s then s else birdFlap s)"

definition togglePauseR :: "State \<Rightarrow> State" where
  "togglePauseR s = s\<lparr>paused := \<not> paused s\<rparr>"

section \<open>The schedule parser (state.ts)\<close>

text \<open>
  Strings are lists of 8-bit characters: the program's strings whose code units
  are below 256.  \<open>trim\<close> strips white space and line terminators at both
  ends; below 256 these are the tab, the line feed, the vertical tab, the form
  feed, the carriage return, the space and the no-break space (0xA0).
\<close>

definition isWhiteSpace :: "char \<Rightarrow> bool" where
  "isWhiteSpace c \<longleftrightarrow>
     c \<in> set [CHR 0x09, CHR 0x0A, CHR 0x0B, CHR 0x0C, CHR 0x0D, CHR 0x20, CHR 0xA0]"

definition trim :: "string \<Rightarrow> string" where
  "trim s = rev (dropWhile isWhiteSpace (rev (dropWhile isWhiteSpace s)))"

text \<open>
  \<open>split\<close> returns the pieces between the separators, so at least one piece;
  \<open>addChar\<close> puts a character in front of the first piece.
\<close>

fun addChar :: "char \<Rightarrow> string list \<Rightarrow> string list" where
  "addChar c [] = [[c]]"
| "addChar c (l # ls) = (c # l) # ls"

text \<open>
  \<open>split\<close> on the pattern of the program: a line feed, or a carriage return
  followed by a line feed, separates; a carriage return alone does not.
\<close>

fun splitLines :: "string \<Rightarrow> string list" where
  "splitLines [] = [[]]"
| "splitLines [c] = (if c = CHR 0x0A then [[], []] else [[c]])"
| "splitLines (c # d # cs) =
     (if c = CHR 0x0A then [] # splitLines (d # cs)
      else if c = CHR 0x0D \<and> d = CHR 0x0A then [] # splitLines cs
      else addChar c (splitLines (d # cs)))"

text \<open>\<open>split(",")\<close>, for any one-character separator.\<close>

fun splitOn :: "char \<Rightarrow> string \<Rightarrow> string list" where
  "splitOn sep [] = [[]]"
| "splitOn sep (c # cs) =
     (if c = sep then [] # splitOn sep cs else addChar c (splitOn sep cs))"

text \<open>
  \<open>Number\<close> applied to a string, by the grammar of string numeric literals:
  white space around the literal is dropped, the empty string is 0, a literal
  is a signed decimal (digits, an optional fraction, an optional exponent, or
  \<open>Infinity\<close>) or an unsigned binary, octal or hexadecimal integer, and
  anything else is NaN.  The result is \<open>Some\<close> of the literal's value when the
  number is finite and \<open>None\<close> when it is NaN or infinite, which is all that
  \<open>Number.isFinite\<close> asks; the value is the exact decimal value (its rounding to
  a double is not modelled), infinite from the overflow threshold on.
\<close>

definition isDigit :: "char \<Rightarrow> bool" where
  "isDigit c \<longleftrightarrow> c \<in> set ''0123456789''"

definition digitVal :: "char \<Rightarrow> nat" where
  "digitVal c = of_char c - 48"

definition radixDigit :: "nat \<Rightarrow> char \<Rightarrow> nat option" where
  "radixDigit radix c =
     (let v = (if isDigit c then Some (digitVal c)
               else if c \<in> set ''abcdef'' then Some (of_char c - 87)
               else if c \<in> set ''ABCDEF'' then Some (of_char c - 55)
               else None)
      in case v of None \<Rightarrow> None | Some d \<Rightarrow> if d < radix then Some d else None)"

definition digitsVal :: "nat \<Rightarrow> string \<Rightarrow> nat" where
  "digitsVal radix ds = foldl (\<lambda>a c. radix * a + the (radixDigit radix c)) 0 ds"

definition finiteDouble :: "real \<Rightarrow> real option" where
  "finiteDouble v = (if \<bar>v\<bar> < 2 ^ 1024 - 2 ^ 970 then Some v else None)"

definition nonDecimalLiteral :: "nat \<Rightarrow> string \<Rightarrow> real option" where
  "nonDecimalLiteral radix ds =
     (if ds \<noteq> [] \<and> list_all (\<lambda>c. radixDigit radix c \<noteq> None) ds
      then finiteDouble (real (digitsVal radix ds)) else None)"

definition exponentPart :: "string \<Rightarrow> int option" where
  "exponentPart r =
     (case r of
        [] \<Rightarrow> Some 0
      | c # t \<Rightarrow>
          if c = CHR ''e'' \<or> c = CHR ''E'' then
            (let neg = (t \<noteq> [] \<and> hd t = CHR ''-'');
                 ds = (if t \<noteq> [] \<and> (hd t = CHR ''-'' \<or> hd t = CHR ''+'') then tl t else t)
             in if ds \<noteq> [] \<and> list_all isDigit ds
                then Some (if neg then - int (digitsVal 10 ds) else int (digitsVal 10 ds))
                else None)
          else None)"

definition strUnsignedDecimalLiteral :: "string \<Rightarrow> real option" where
  "strUnsignedDecimalLiteral s =
     (if s = ''Infinity'' then None
      else
        let ip = takeWhile isDigit s;
            r1 = dropWhile isDigit s;
            hasDot = (r1 \<noteq> [] \<and> hd r1 = CHR ''.'');
            fp = (if hasDot then takeWhile isDigit (tl r1) else []);
            r2 = (if hasDot then dropWhile isDigit (tl r1) else r1)
        in if ip = [] \<and> fp = [] then None
           else case exponentPart r2 of
                  None \<Rightarrow> None
                | Some e \<Rightarrow>
                    let m = real (digitsVal 10 ip) + real (digitsVal 10 fp) / 10 ^ length fp
                    in finiteDouble (if 0 \<le> e then m * 10 ^ nat e else m / 10 ^ nat (- e)))"

definition Number :: "string \<Rightarrow> real option" where
  "Number str =
     (let t = trim str in
      case t of
        [] \<Rightarrow> Some 0
      | [c] \<Rightarrow> strUnsignedDecimalLiteral t
      | c # d # ds \<Rightarrow>
          if c = CHR ''0'' \<and> (d = CHR ''x'' \<or> d = CHR ''X'') then nonDecimalLiteral 16 ds
          else if c = CHR ''0'' \<and> (d = CHR ''o'' \<or> d = CHR ''O'') then nonDecimalLiteral 8 ds
          else if c = CHR ''0'' \<and> (d = CHR ''b'' \<or> d = CHR ''B'') then nonDecimalLiteral 2 ds
          else if c = CHR ''+'' then strUnsignedDecimalLiteral (d # ds)
          else if c = CHR ''-'' then map_option uminus (strUnsignedDecimalLiteral (d # ds))
          else strUnsignedDecimalLiteral t)"

definition isFinite :: "real option \<Rightarrow> bool" where
  "isFinite v \<longleftrightarrow> v \<noteq> None"

text \<open>
  The callback of the last \<open>map\<close> reads the three columns by position; behind
  the filter they are there and finite.
\<close>

definition toPipe :: "real option list \<Rightarrow> Pipe" where
  "toPipe cols =
     (let gapYFrac = the (cols ! 0);
          gapHeightFrac = the (cols ! 1);
          appearTimeSec = the (cols ! 2)
      in \<lparr> pipeX = CANVAS_WIDTH + appearTimeSec * (1000 / TICK_RATE_MS) * PIPE_SPEED,
           gapY = gapYFrac * CANVAS_HEIGHT,
           gapHeight = gapHeightFrac * CANVAS_HEIGHT,
           passed = False \<rparr>)"

definition parsePipeCSV :: "string \<Rightarrow> Pipe list" where
  "parsePipeCSV csv =
     map toPipe
       (filter (\<lambda>cols. length cols = 3 \<and> list_all isFinite cols)
          (map (\<lambda>line. map Number (splitOn CHR '','' line))
             (drop 1 (splitLines (trim csv)))))"

section \<open>Example inputs\<close>

definition mkPipe :: "real \<Rightarrow> real \<Rightarrow> real \<Rightarrow> bool \<Rightarrow> Pipe" where
  "mkPipe px gy gh pd = \<lparr> pipeX = px, gapY = gy, gapHeight = gh, passed = pd \<rparr>"

definition pausedState :: State where
  "pausedState = initialState\<lparr>paused := True, tickCount := 5, pipes := [mkPipe 700 200 100 False]\<rparr>"

definition endedState :: State where
  "endedState = initialState\<lparr>gameEnd := True, tickCount := 7\<rparr>"

definition twoHitState :: State where
  "twoHitState = initialState\<lparr>birdY := 0, pipes := [mkPipe 155 200 100 False, mkPipe 155 240 100 False]\<rparr>"

definition bottomState :: State where
  "bottomState = initialState\<lparr>birdY := 500, birdVY := 10, tickCount := 10,
      pipes := [mkPipe 700 200 100 False]\<rparr>"

definition passingState :: State where
  "passingState = initialState\<lparr>birdY := 200, score := 4,
      pipes := [mkPipe 20 200 100 True, mkPipe 80 200 100 False, mkPipe 700 200 100 False]\<rparr>"

definition csvExample :: string where
  "csvExample = ''gap_y,gap_height,time'' @ [CHR 0x0A] @ ''0.5,0.25,2'' @ [CHR 0x0A] @ ''0.25,0.5,1''"

definition csvEmptyFields :: string where
  "csvEmptyFields = ''gap_y,gap_height,time'' @ [CHR 0x0A] @ '',,''"

definition smallRiseState :: State where
  "smallRiseState = initialState\<lparr>birdY := 0, birdVY := - (1 / 4)\<rparr>"

definition topClampState :: State where
  "topClampState = initialState\<lparr>birdY := 0, birdVY := - 5\<rparr>"

definition bottomClampState :: State where
  "bottomClampState = initialState\<lparr>birdY := CANVAS_HEIGHT, birdVY := 20\<rparr>"

section \<open>Flap and tick guards\<close>

text \<open>
  C6. The flap reducer sets \<open>birdVY\<close> to \<open>FLAP_FORCE = -5.5\<close> and nothing else,
  except when \<open>gameEnd\<close> is true, where it returns the state unchanged; being
  paused does not matter, so a flap on a paused, not ended state sets
  \<open>birdVY = -5.5\<close>.
\<close>

theorem flapR_sets_velocity_unless_ended:
  "flapR s = (if gameEnd s then s else s\<lparr>birdVY := - (11 / 2)\<rparr>)
   \<and> (paused s \<and> \<not> gameEnd s \<longrightarrow> birdVY (flapR s) = - (11 / 2))"
  by (simp add: flapR_def birdFlap_def)

theorem flapR_sets_velocity_unless_ended_witness:
  "paused pausedState \<and> \<not> gameEnd pausedState
   \<and> birdVY (flapR pausedState) = - (11 / 2)
   \<and> flapR endedState = endedState"
  using flapR_sets_velocity_unless_ended [of pausedState]
        flapR_sets_velocity_unless_ended [of endedState]
  by (simp add: pausedState_def endedState_def initialState_def)

text \<open>
  C8. For every state with \<open>gameEnd\<close> or \<open>paused\<close> set, \<open>tick\<close> returns the
  state itself: every field, \<open>tickCount\<close> included, is unchanged.
\<close>

theorem tick_identity_when_ended_or_paused:
  "gameEnd s \<or> paused s \<Longrightarrow> tick s = s"
  by (simp add: tick_def)

theorem tick_identity_when_ended_or_paused_witness:
  "(gameEnd pausedState \<or> paused pausedState) \<and> tick pausedState = pausedState
   \<and> tickCount (tick pausedState) = 5
   \<and> (gameEnd endedState \<or> paused endedState) \<and> tick endedState = endedState
   \<and> tickCount (tick endedState) = 7"
proof -
  have p: "gameEnd pausedState \<or> paused pausedState"
    by (simp add: pausedState_def initialState_def)
  have e: "gameEnd endedState \<or> paused endedState"
    by (simp add: endedState_def initialState_def)
  show ?thesis
    using p e tick_identity_when_ended_or_paused [OF p] tick_identity_when_ended_or_paused [OF e]
    by (simp add: pausedState_def endedState_def initialState_def)
qed

section \<open>The fold over the pipes and the world bounds\<close>

lemma pipeStep_pipes:
  "acc_pipes (pipeStep y acc p) =
     acc_pipes acc @ [if \<not> passed p \<and> passedNow y p then p\<lparr>passed := True\<rparr> else p]"
  by (simp add: pipeStep_def Let_def)

lemma pipeStep_score:
  "acc_score (pipeStep y acc p) =
     acc_score acc + (if \<not> passed p \<and> passedNow y p then 1 else 0)"
  by (simp add: pipeStep_def Let_def)

lemma pipeStep_lostLife:
  "lostLifeThisTick (pipeStep y acc p) \<longleftrightarrow>
     lostLifeThisTick acc \<or> (\<not> passed p \<and> collided y p)"
  by (simp add: pipeStep_def Let_def)

lemma pipeStep_lives:
  "acc_lives (pipeStep y acc p) =
     (if \<not> lostLifeThisTick acc \<and> \<not> passed p \<and> collided y p
      then acc_lives acc - 1 else acc_lives acc)"
  by (simp add: pipeStep_def Let_def)

lemma pipeStep_invuln:
  "invulnUntilTick (pipeStep y acc p) = invulnUntilTick acc"
  by (simp add: pipeStep_def Let_def)

lemma fold_pipes:
  "acc_pipes (foldl (pipeStep y) acc ps) =
     acc_pipes acc @ map (\<lambda>p. if \<not> passed p \<and> passedNow y p then p\<lparr>passed := True\<rparr> else p) ps"
  by (induction ps arbitrary: acc) (simp_all add: pipeStep_pipes)

lemma fold_score:
  "acc_score (foldl (pipeStep y) acc ps) =
     acc_score acc + int (length (filter (\<lambda>p. \<not> passed p \<and> passedNow y p) ps))"
  by (induction ps arbitrary: acc) (simp_all add: pipeStep_score)

lemma fold_lostLife:
  "lostLifeThisTick (foldl (pipeStep y) acc ps) \<longleftrightarrow>
     lostLifeThisTick acc \<or> (\<exists>p \<in> set ps. \<not> passed p \<and> collided y p)"
  by (induction ps arbitrary: acc) (auto simp add: pipeStep_lostLife)

lemma fold_lives:
  "acc_lives (foldl (pipeStep y) acc ps) =
     (if \<not> lostLifeThisTick acc \<and> (\<exists>p \<in> set ps. \<not> passed p \<and> collided y p)
      then acc_lives acc - 1 else acc_lives acc)"
  by (induction ps arbitrary: acc) (auto simp add: pipeStep_lives pipeStep_lostLife)

lemma fold_invuln:
  "invulnUntilTick (foldl (pipeStep y) acc ps) = invulnUntilTick acc"
  by (induction ps arbitrary: acc) (simp_all add: pipeStep_invuln)

lemma world_pipes: "acc_pipes (world s ap) = acc_pipes ap"
  by (simp add: world_def Let_def)

lemma world_score: "acc_score (world s ap) = acc_score ap"
  by (simp add: world_def Let_def)

lemma world_lives_bounds:
  "acc_lives (world s ap) \<le> acc_lives ap \<and> acc_lives ap - 1 \<le> acc_lives (world s ap)"
  by (simp add: world_def Let_def)

lemma world_lives_lost:
  "lostLifeThisTick ap \<Longrightarrow> acc_lives (world s ap) = acc_lives ap"
  by (simp add: world_def Let_def)

lemma world_lives_invuln:
  "tickCount s < invulnUntilTick ap \<Longrightarrow> acc_lives (world s ap) = acc_lives ap"
  by (simp add: world_def Let_def)

lemma afterPipes_lost:
  "lostLifeThisTick (afterPipes s) \<longleftrightarrow> (\<exists>p \<in> set (pipes s). \<not> passed p \<and> collided (birdY s) p)"
  by (simp add: afterPipes_def fold_lostLife start_def)

lemma afterPipes_lives:
  "acc_lives (afterPipes s) =
     (if \<exists>p \<in> set (pipes s). \<not> passed p \<and> collided (birdY s) p then lives s - 1 else lives s)"
  by (simp add: afterPipes_def fold_lives start_def)

lemma afterPipes_invuln: "invulnUntilTick (afterPipes s) = invulnUntil s"
  by (simp add: afterPipes_def fold_invuln start_def)

lemma afterPipes_pipes:
  "acc_pipes (afterPipes s) =
     map (\<lambda>p. if \<not> passed p \<and> passedNow (birdY s) p then p\<lparr>passed := True\<rparr> else p) (pipes s)"
  by (simp add: afterPipes_def fold_pipes start_def)

lemma afterPipes_score:
  "acc_score (afterPipes s) =
     score s + int (length (filter (\<lambda>p. \<not> passed p \<and> passedNow (birdY s) p) (pipes s)))"
  by (simp add: afterPipes_def fold_score start_def)

lemma checkPipes_lives:
  "lives (checkPipes s) = (if pipes s = [] then lives s else acc_lives (world s (afterPipes s)))"
  by (simp add: checkPipes_def Let_def)

lemma checkPipes_pipes:
  "pipes (checkPipes s) =
     map (\<lambda>p. if \<not> passed p \<and> passedNow (birdY s) p then p\<lparr>passed := True\<rparr> else p) (pipes s)"
  by (simp add: checkPipes_def Let_def world_pipes afterPipes_pipes)

lemma checkPipes_score:
  "score (checkPipes s) =
     score s + int (length (filter (\<lambda>p. \<not> passed p \<and> passedNow (birdY s) p) (pipes s)))"
  by (simp add: checkPipes_def Let_def world_score afterPipes_score)

lemma filter_zip_map:
  "length (filter P (zip xs (map f xs))) = length (filter (\<lambda>x. P (x, f x)) xs)"
  by (induction xs) simp_all

lemma checkPipes_invuln:
  "invulnUntil (checkPipes s) = (if pipes s = [] then invulnUntil s else invulnUntilTick (world s (afterPipes s)))"
  by (simp add: checkPipes_def Let_def)

lemma world_invuln_on_loss:
  "acc_lives (world s ap) \<noteq> acc_lives ap \<Longrightarrow> invulnUntilTick (world s ap) = tickCount s + 15"
  by (auto simp add: world_def Let_def split: if_splits)

lemma eval_consts: "birdLeft = 159" "birdRight = 201" "birdX = 180"
  by (simp_all add: birdLeft_def birdRight_def birdX_def)

lemma bottomState_check:
  "checkPipes bottomState = bottomState\<lparr>lives := 2, invulnUntil := 25,
     birdVY := fst (randBetween 123456789 (- 8) (- 4)), rngSeed := snd (randBetween 123456789 (- 8) (- 4))\<rparr>"
  by (simp add: checkPipes_def afterPipes_def world_def pipeStep_def start_def Let_def bottomState_def initialState_def
        mkPipe_def collided_def overlapsX_def outsideGap_def passedNow_def eval_consts
        birdTop_def birdBottom_def pipeLeft_def pipeRight_def gapTop_def gapBottom_def)

lemma passingState_check:
  "pipes (checkPipes passingState) = [mkPipe 20 200 100 True, mkPipe 80 200 100 True, mkPipe 700 200 100 False]"
  by (simp add: checkPipes_pipes) (simp add: passingState_def initialState_def mkPipe_def 
       passedNow_def outsideGap_def pipeRight_def eval_consts birdTop_def birdBottom_def gapTop_def gapBottom_def)

text \<open>
  C1. One call of \<open>checkPipes\<close> lowers \<open>lives\<close> by at most one: the result is
  never above \<open>lives s\<close> and never below \<open>lives s - 1\<close>.  When at least two
  pipes that are not yet passed collide with the bird, exactly one life is
  deducted, whatever the bird's height, so a contact with the world bounds in the
  same call costs nothing more.
\<close>

theorem checkPipes_loses_at_most_one_life:
  "lives (checkPipes s) \<le> lives s \<and> lives s - 1 \<le> lives (checkPipes s)
   \<and> ((\<exists>i j. i < j \<and> j < length (pipes s)
          \<and> \<not> passed (pipes s ! i) \<and> collided (birdY s) (pipes s ! i)
          \<and> \<not> passed (pipes s ! j) \<and> collided (birdY s) (pipes s ! j))
        \<longrightarrow> lives (checkPipes s) = lives s - 1)"
proof (cases "pipes s = []")
  case True
  then show ?thesis by (simp add: checkPipes_lives)
next
  case False
  let ?hit = "\<exists>p \<in> set (pipes s). \<not> passed p \<and> collided (birdY s) p"
  have eq: "lives (checkPipes s) = acc_lives (world s (afterPipes s))"
    using False by (simp add: checkPipes_lives)
  have bounds: "lives (checkPipes s) \<le> lives s \<and> lives s - 1 \<le> lives (checkPipes s)"
  proof (cases ?hit)
    case True
    then have "acc_lives (world s (afterPipes s)) = lives s - 1"
      by (simp add: world_lives_lost afterPipes_lost afterPipes_lives)
    then show ?thesis using eq by simp
  next
    case False
    then have "acc_lives (afterPipes s) = lives s"
      by (simp add: afterPipes_lives)
    then show ?thesis
      using eq world_lives_bounds [of s "afterPipes s"] by simp
  qed
  have two: "lives (checkPipes s) = lives s - 1"
    if "\<exists>i j. i < j \<and> j < length (pipes s)
          \<and> \<not> passed (pipes s ! i) \<and> collided (birdY s) (pipes s ! i)
          \<and> \<not> passed (pipes s ! j) \<and> collided (birdY s) (pipes s ! j)"
  proof -
    from that obtain j where "j < length (pipes s)"
      "\<not> passed (pipes s ! j)" "collided (birdY s) (pipes s ! j)"
      by blast
    then have ?hit
      using nth_mem by blast
    then have "acc_lives (world s (afterPipes s)) = lives s - 1"
      by (simp add: world_lives_lost afterPipes_lost afterPipes_lives)
    then show ?thesis using eq by simp
  qed
  show ?thesis using bounds two by blast
qed

theorem checkPipes_loses_at_most_one_life_witness:
  "lives twoHitState = 3 \<and> worldContact (birdY twoHitState)
   \<and> collided (birdY twoHitState) (pipes twoHitState ! 0)
   \<and> collided (birdY twoHitState) (pipes twoHitState ! 1)
   \<and> lives (checkPipes twoHitState) = 2"
proof -
  have vals: "lives twoHitState = 3 \<and> worldContact (birdY twoHitState)
     \<and> length (pipes twoHitState) = 2
     \<and> \<not> passed (pipes twoHitState ! 0) \<and> collided (birdY twoHitState) (pipes twoHitState ! 0)
     \<and> \<not> passed (pipes twoHitState ! 1) \<and> collided (birdY twoHitState) (pipes twoHitState ! 1)"
    by (simp add: twoHitState_def initialState_def mkPipe_def collided_def overlapsX_def outsideGap_def
          pipeLeft_def pipeRight_def gapTop_def eval_consts worldContact_def birdTop_def)
  then have two: "\<exists>i j. i < j \<and> j < length (pipes twoHitState)
          \<and> \<not> passed (pipes twoHitState ! i) \<and> collided (birdY twoHitState) (pipes twoHitState ! i)
          \<and> \<not> passed (pipes twoHitState ! j) \<and> collided (birdY twoHitState) (pipes twoHitState ! j)"
    by (intro exI [of _ 0] exI [of _ 1]) simp
  show ?thesis
    using checkPipes_loses_at_most_one_life [of twoHitState] two vals by simp
qed

text \<open>
  C4. When no pipe collides, the bird touches the world bounds and the call of
  \<open>checkPipes\<close> at \<open>tickCount = T\<close> deducts a life, the result has
  \<open>invulnUntil = T + 15\<close>; and every later call on a state that carries this
  \<open>invulnUntil\<close>, has \<open>T \<le> tickCount < T + 15\<close>, touches the bounds and has no
  colliding pipe leaves \<open>lives\<close> unchanged.
\<close>

theorem boundary_loss_starts_invulnerability:
  assumes noHit: "\<forall>p \<in> set (pipes s). \<not> passed p \<longrightarrow> \<not> collided (birdY s) p"
    and contact: "worldContact (birdY s)"
    and lost: "lives (checkPipes s) = lives s - 1"
  shows "invulnUntil (checkPipes s) = tickCount s + 15
    \<and> (\<forall>s'. tickCount s \<le> tickCount s' \<and> tickCount s' < tickCount s + 15
           \<and> invulnUntil s' = invulnUntil (checkPipes s)
           \<and> worldContact (birdY s')
           \<and> (\<forall>p \<in> set (pipes s'). \<not> passed p \<longrightarrow> \<not> collided (birdY s') p)
         \<longrightarrow> lives (checkPipes s') = lives s')"
proof -
  have ne: "pipes s \<noteq> []"
    using lost by (auto simp add: checkPipes_lives)
  have ap: "acc_lives (afterPipes s) = lives s"
    using noHit by (auto simp add: afterPipes_lives)
  have "acc_lives (world s (afterPipes s)) \<noteq> acc_lives (afterPipes s)"
    using lost ne ap by (simp add: checkPipes_lives)
  then have inv: "invulnUntil (checkPipes s) = tickCount s + 15"
    using ne by (simp add: checkPipes_invuln world_invuln_on_loss)
  have later: "lives (checkPipes s') = lives s'"
    if w: "tickCount s' < tickCount s + 15"
      and i: "invulnUntil s' = invulnUntil (checkPipes s)"
      and n: "\<forall>p \<in> set (pipes s'). \<not> passed p \<longrightarrow> \<not> collided (birdY s') p" for s'
  proof (cases "pipes s' = []")
    case True
    then show ?thesis by (simp add: checkPipes_lives)
  next
    case False
    have "tickCount s' < invulnUntilTick (afterPipes s')"
      using w i inv by (simp add: afterPipes_invuln)
    then have "acc_lives (world s' (afterPipes s')) = acc_lives (afterPipes s')"
      by (rule world_lives_invuln)
    moreover have "acc_lives (afterPipes s') = lives s'"
      using n by (auto simp add: afterPipes_lives)
    ultimately show ?thesis
      using False by (simp add: checkPipes_lives)
  qed
  show ?thesis using inv later by blast
qed

theorem boundary_loss_starts_invulnerability_witness:
  "lives bottomState = 3 \<and> tickCount bottomState = 10
   \<and> lives (checkPipes bottomState) = 2 \<and> invulnUntil (checkPipes bottomState) = 25
   \<and> lives (checkPipes ((checkPipes bottomState)\<lparr>tickCount := 24\<rparr>)) = 2"
proof -
  have noHit: "\<forall>p \<in> set (pipes bottomState). \<not> passed p \<longrightarrow> \<not> collided (birdY bottomState) p"
    by (simp add: bottomState_def initialState_def mkPipe_def collided_def overlapsX_def
          pipeLeft_def eval_consts)
  have contact: "worldContact (birdY bottomState)"
    by (simp add: worldContact_def bottomState_def birdBottom_def)
  have lost: "lives (checkPipes bottomState) = lives bottomState - 1"
    by (simp add: bottomState_check) (simp add: bottomState_def initialState_def)
  let ?s' = "(checkPipes bottomState)\<lparr>tickCount := 24\<rparr>"
  have later: "tickCount bottomState \<le> tickCount ?s' \<and> tickCount ?s' < tickCount bottomState + 15
           \<and> invulnUntil ?s' = invulnUntil (checkPipes bottomState)
           \<and> worldContact (birdY ?s')
           \<and> (\<forall>p \<in> set (pipes ?s'). \<not> passed p \<longrightarrow> \<not> collided (birdY ?s') p)"
    by (simp add: bottomState_check) (simp add: bottomState_def initialState_def mkPipe_def collided_def overlapsX_def
          pipeLeft_def eval_consts worldContact_def birdBottom_def)
  have vals: "lives bottomState = 3 \<and> tickCount bottomState = 10 \<and> lives ?s' = 2"
    by (simp add: bottomState_check) (simp add: bottomState_def initialState_def)
  from boundary_loss_starts_invulnerability [OF noHit contact lost]
  show ?thesis using later vals lost by simp
qed

text \<open>
  C5. For a state with pipes, \<open>checkPipes\<close> adds to \<open>score\<close> exactly the number
  of pipes whose \<open>passed\<close> flag is false before and true after the call; a flag
  that is true stays true, so the score never decreases and a pipe is counted at
  most once.
\<close>

theorem checkPipes_score_counts_new_passes:
  "pipes s \<noteq> [] \<Longrightarrow>
   length (pipes (checkPipes s)) = length (pipes s)
   \<and> score (checkPipes s) =
       score s + int (length (filter (\<lambda>(p, q). \<not> passed p \<and> passed q)
                                     (zip (pipes s) (pipes (checkPipes s)))))
   \<and> (\<forall>i < length (pipes s). passed (pipes s ! i) \<longrightarrow> passed (pipes (checkPipes s) ! i))
   \<and> score s \<le> score (checkPipes s)"
proof -
  let ?f = "\<lambda>p. if \<not> passed p \<and> passedNow (birdY s) p then p\<lparr>passed := True\<rparr> else p"
  have len: "length (pipes (checkPipes s)) = length (pipes s)"
    by (simp add: checkPipes_pipes)
  have "(\<lambda>p. (case (p, ?f p) of (p, q) \<Rightarrow> \<not> passed p \<and> passed q))
          = (\<lambda>p. \<not> passed p \<and> passedNow (birdY s) p)"
    by (rule ext) simp
  then have cnt: "length (filter (\<lambda>(p, q). \<not> passed p \<and> passed q) (zip (pipes s) (pipes (checkPipes s))))
      = length (filter (\<lambda>p. \<not> passed p \<and> passedNow (birdY s) p) (pipes s))"
    by (simp only: checkPipes_pipes filter_zip_map)
  have sc: "score (checkPipes s) =
       score s + int (length (filter (\<lambda>(p, q). \<not> passed p \<and> passed q)
                                     (zip (pipes s) (pipes (checkPipes s)))))"
    by (simp only: cnt checkPipes_score)
  have keep: "\<forall>i < length (pipes s). passed (pipes s ! i) \<longrightarrow> passed (pipes (checkPipes s) ! i)"
    by (simp add: checkPipes_pipes)
  have mono: "score s \<le> score (checkPipes s)"
    by (simp add: checkPipes_score)
  show ?thesis using len sc keep mono by blast
qed

theorem checkPipes_score_counts_new_passes_witness:
  "pipes passingState \<noteq> [] \<and> score passingState = 4 \<and> score (checkPipes passingState) = 5
   \<and> map passed (pipes passingState) = [True, False, False]
   \<and> map passed (pipes (checkPipes passingState)) = [True, True, False]"
proof -
  have ne: "pipes passingState \<noteq> []"
    by (simp add: passingState_def)
  have cnt: "length (filter (\<lambda>(p, q). \<not> passed p \<and> passed q)
                (zip (pipes passingState) (pipes (checkPipes passingState)))) = 1"
    by (simp add: passingState_check) (simp add: passingState_def mkPipe_def)
  have vals: "score passingState = 4 \<and> map passed (pipes passingState) = [True, False, False]
     \<and> map passed (pipes (checkPipes passingState)) = [True, True, False]"
    by (simp add: passingState_check) (simp add: passingState_def initialState_def mkPipe_def)
  show ?thesis
    using checkPipes_score_counts_new_passes [OF ne] ne cnt vals by simp
qed

text \<open>
  C9. For a state with pipes, \<open>checkPipes\<close> returns as many pipes, in the same
  order; each has the \<open>x\<close>, \<open>gapY\<close> and \<open>gapHeight\<close> of the pipe at its index,
  and is either that pipe or that pipe with \<open>passed\<close> turned from false to true.
\<close>

theorem checkPipes_keeps_pipes:
  "pipes s \<noteq> [] \<Longrightarrow>
   length (pipes (checkPipes s)) = length (pipes s)
   \<and> (\<forall>i < length (pipes s).
         pipeX (pipes (checkPipes s) ! i) = pipeX (pipes s ! i)
         \<and> gapY (pipes (checkPipes s) ! i) = gapY (pipes s ! i)
         \<and> gapHeight (pipes (checkPipes s) ! i) = gapHeight (pipes s ! i)
         \<and> (passed (pipes s ! i) \<longrightarrow> passed (pipes (checkPipes s) ! i))
         \<and> (pipes (checkPipes s) ! i = pipes s ! i
              \<or> (\<not> passed (pipes s ! i) \<and> pipes (checkPipes s) ! i = (pipes s ! i)\<lparr>passed := True\<rparr>)))"
  by (simp add: checkPipes_pipes)

theorem checkPipes_keeps_pipes_witness:
  "pipes passingState \<noteq> [] \<and> length (pipes (checkPipes passingState)) = 3
   \<and> map pipeX (pipes (checkPipes passingState)) = [20, 80, 700]
   \<and> pipes (checkPipes passingState) ! 1 = (pipes passingState ! 1)\<lparr>passed := True\<rparr>
   \<and> pipes (checkPipes passingState) ! 2 = pipes passingState ! 2"
proof -
  have ne: "pipes passingState \<noteq> []"
    by (simp add: passingState_def)
  have len: "length (pipes passingState) = 3"
    by (simp add: passingState_def)
  have vals: "map pipeX (pipes (checkPipes passingState)) = [20, 80, 700]
   \<and> pipes (checkPipes passingState) ! 1 = (pipes passingState ! 1)\<lparr>passed := True\<rparr>
   \<and> pipes (checkPipes passingState) ! 2 = pipes passingState ! 2"
    by (simp add: passingState_check) (simp add: passingState_def mkPipe_def)
  show ?thesis
    using checkPipes_keeps_pipes [OF ne] ne len vals by simp
qed

section \<open>Gravity and the clamp\<close>

lemma moveBird_keeps_pipes: "pipes (moveBird s) = pipes s"
  by (simp add: moveBird_def Let_def)

lemma movePipes_keeps_passed:
  "q \<in> set (pipes (movePipes s)) \<Longrightarrow>
   \<exists>p \<in> set (pipes s). q = p\<lparr>pipeX := pipeX p - 5\<rparr> \<and> passed q = passed p"
  by (auto simp add: movePipes_def)

lemma movePipes_shifts_and_culls:
  "pipes (movePipes (initialState\<lparr>pipes := [mkPipe 10 200 100 False, mkPipe (- 60) 200 100 False]\<rparr>))
     = [mkPipe 5 200 100 False]"
  by (simp add: movePipes_def mkPipe_def)

text \<open>
  C2 (as amended).  For a state that has not ended: with \<open>birdY = 0\<close> and
  \<open>birdVY \<le> -0.5\<close>, \<open>moveBird\<close> returns \<open>birdY = 0\<close> and \<open>birdVY = 0\<close>; with
  \<open>birdY = 0\<close> and \<open>-0.5 < birdVY < 0\<close> gravity turns the velocity positive and
  the bird leaves the bound, \<open>birdY = birdVY = birdVY s + 0.5\<close>; with
  \<open>birdY = 400\<close> and \<open>birdVY > 0\<close> it returns \<open>birdY = 385\<close> and \<open>birdVY = 0\<close>.
  For a state that has ended, \<open>moveBird\<close> returns the state unchanged.
\<close>

theorem moveBird_clamps_at_bounds:
  "(\<not> gameEnd s \<and> birdY s = 0 \<and> birdVY s \<le> - (1 / 2)
      \<longrightarrow> birdY (moveBird s) = 0 \<and> birdVY (moveBird s) = 0)
   \<and> (\<not> gameEnd s \<and> birdY s = 0 \<and> - (1 / 2) < birdVY s \<and> birdVY s < 0
      \<longrightarrow> birdY (moveBird s) = birdVY s + 1 / 2 \<and> birdVY (moveBird s) = birdVY s + 1 / 2)
   \<and> (\<not> gameEnd s \<and> birdY s = 400 \<and> birdVY s > 0
      \<longrightarrow> birdY (moveBird s) = 385 \<and> birdVY (moveBird s) = 0)
   \<and> (gameEnd s \<longrightarrow> moveBird s = s)"
  by (simp add: moveBird_def Let_def)

theorem moveBird_clamps_at_bounds_witness:
  "\<not> gameEnd topClampState \<and> birdY topClampState = 0 \<and> birdVY topClampState = - 5
   \<and> birdY (moveBird topClampState) = 0 \<and> birdVY (moveBird topClampState) = 0
   \<and> \<not> gameEnd bottomClampState \<and> birdY bottomClampState = 400 \<and> birdVY bottomClampState = 20
   \<and> birdY (moveBird bottomClampState) = 385 \<and> birdVY (moveBird bottomClampState) = 0
   \<and> gameEnd endedState \<and> moveBird endedState = endedState"
proof -
  have t: "\<not> gameEnd topClampState \<and> birdY topClampState = 0 \<and> birdVY topClampState = - 5"
    by (simp add: topClampState_def initialState_def)
  have b: "\<not> gameEnd bottomClampState \<and> birdY bottomClampState = 400 \<and> birdVY bottomClampState = 20"
    by (simp add: bottomClampState_def initialState_def)
  have e: "gameEnd endedState"
    by (simp add: endedState_def)
  show ?thesis
    using t b e moveBird_clamps_at_bounds [of topClampState]
      moveBird_clamps_at_bounds [of bottomClampState] moveBird_clamps_at_bounds [of endedState]
    by simp
qed

text \<open>
  C2 as stated fails: at \<open>birdY = 0\<close>, \<open>birdVY = -0.25\<close> (not ended)
  \<open>moveBird\<close> returns \<open>birdY = 0.25\<close> and \<open>birdVY = 0.25\<close>.
\<close>

theorem moveBird_small_rise_counterexample:
  "birdY smallRiseState = 0 \<and> birdVY smallRiseState < 0
   \<and> birdY (moveBird smallRiseState) = 1 / 4 \<and> birdVY (moveBird smallRiseState) = 1 / 4"
  by (simp add: moveBird_def Let_def smallRiseState_def initialState_def)

section \<open>The generator\<close>

lemma bit_length_le: "n < 2 ^ k \<Longrightarrow> bit_length n \<le> k"
proof (induction k arbitrary: n)
  case 0
  then show ?case by (simp add: bit_length.simps)
next
  case (Suc k)
  then have "n div 2 < 2 ^ k" by simp
  then have "bit_length (n div 2) \<le> k" by (rule Suc.IH)
  then show ?case by (subst bit_length.simps) simp
qed

lemma round_double_exact: "\<bar>n\<bar> < 2 ^ 53 \<Longrightarrow> round_double n = n"
proof -
  assume "\<bar>n\<bar> < 2 ^ 53"
  then have "bit_length \<bar>n\<bar> \<le> 53" by (rule bit_length_le)
  then show ?thesis by (simp add: round_double_def)
qed

text \<open>
  C3 (as amended).  For every integer seed with \<open>0 \<le> seed \<le> 8162278\<close>, the
  seeds for which \<open>1103515245 * seed + 12345\<close> stays below \<open>2 ^ 53\<close>,
  \<open>hash seed\<close> is exactly \<open>(1103515245 * seed + 12345) mod 2 ^ 31\<close>.  For every
  seed, \<open>randBetween seed min max\<close> returns \<open>hash seed\<close> as the next seed, and the
  pair it returns is fixed by \<open>hash seed\<close>, \<open>min\<close> and \<open>max\<close>: the same pair on
  every evaluation with the same arguments.
\<close>

theorem hash_exact_below_2_53:
  "(0 \<le> seed \<and> seed \<le> 8162278 \<longrightarrow> hash seed = (1103515245 * seed + 12345) mod 2 ^ 31)
   \<and> snd (randBetween seed mn mx) = hash seed
   \<and> (\<forall>seed'. hash seed' = hash seed \<longrightarrow> randBetween seed' mn mx = randBetween seed mn mx)"
proof -
  have h: "hash seed = (1103515245 * seed + 12345) mod 2 ^ 31"
    if r: "0 \<le> seed \<and> seed \<le> 8162278"
  proof -
    have p: "round_double (1103515245 * seed) = 1103515245 * seed"
      using r by (intro round_double_exact) simp
    have q: "round_double (1103515245 * seed + 12345) = 1103515245 * seed + 12345"
      using r by (intro round_double_exact) simp
    show ?thesis
      using r by (simp add: hash_def p q js_rem_def sgn_if)
  qed
  have s: "snd (randBetween seed mn mx) = hash seed"
    by (simp add: randBetween_def rand_def Let_def)
  have d: "randBetween seed' mn mx = randBetween seed mn mx" if "hash seed' = hash seed" for seed'
    using that by (simp add: randBetween_def rand_def Let_def)
  show ?thesis using h s d by blast
qed

text \<open>
  At the seed 424242 of the repository's test the model returns the double
  7.323611505014641, which is \<open>4122826755623777 / 2 ^ 49\<close>, and at the program's
  initial seed the next seed is the rounded one.
\<close>

theorem hash_exact_below_2_53_witness:
  "(0::int) \<le> 424242 \<and> (424242::int) \<le> 8162278 \<and> hash 424242 = 1784350339
   \<and> randBetween 424242 4 8 = (4122826755623777 / 562949953421312, 1784350339)
   \<and> snd (randBetween 123456789 4 8) = 231794736"
proof -
  have v: "randBetween 424242 4 8 = (4122826755623777 / 562949953421312, 1784350339)"
    by code_simp
  have n: "hash 123456789 = 231794736"
    by code_simp
  have h: "hash 424242 = 1784350339"
    using hash_exact_below_2_53 [of 424242 4 8, THEN conjunct1] by simp
  have s: "snd (randBetween 123456789 4 8) = hash 123456789"
    using hash_exact_below_2_53 [of 123456789 4 8, THEN conjunct2, THEN conjunct1] .
  show ?thesis
    using h s v n by simp
qed

text \<open>
  C3 as stated fails: at the program's initial seed 123456789 the product is
  above \<open>2 ^ 53\<close> and is rounded, and \<open>hash\<close> returns 231794736 where the
  recurrence in exact integers gives 231794730.
\<close>

theorem hash_not_exact_counterexample:
  "(0::int) \<le> 123456789 \<and> (123456789::int) < 2 ^ 31
   \<and> hash 123456789 = 231794736
   \<and> (1103515245 * 123456789 + 12345) mod 2 ^ 31 = (231794730::int)"
  by code_simp

section \<open>The schedule parser\<close>

lemmas number_eval =
  Number_def trim_def isWhiteSpace_def strUnsignedDecimalLiteral_def exponentPart_def
  isDigit_def digitVal_def digitsVal_def radixDigit_def finiteDouble_def Let_def

lemma Number_empty: "Number [] = Some 0"
  by (simp add: Number_def trim_def)

lemma Number_examples:
  "Number ''0.5'' = Some (1 / 2)" "Number ''0.25'' = Some (1 / 4)"
  "Number ''2'' = Some 2" "Number ''1'' = Some 1"
  by (simp_all add: number_eval)

lemma trim_csvExample: "trim csvExample = csvExample"
  by (simp add: trim_def csvExample_def isWhiteSpace_def)

lemma lines_csvExample:
  "splitLines csvExample = [''gap_y,gap_height,time'', ''0.5,0.25,2'', ''0.25,0.5,1'']"
  by (simp add: csvExample_def)

lemma cols_examples:
  "splitOn CHR '','' ''0.5,0.25,2'' = [''0.5'', ''0.25'', ''2'']"
  "splitOn CHR '','' ''0.25,0.5,1'' = [''0.25'', ''0.5'', ''1'']"
  "splitOn CHR '','' '',,'' = [[], [], []]"
  by simp_all

lemma addChar_nonempty: "addChar c xs \<noteq> []"
  by (cases xs) simp_all

lemma splitLines_nonempty: "splitLines s \<noteq> []"
  by (induction s rule: splitLines.induct) (simp_all add: addChar_nonempty)

lemma drop_addChar: "xs \<noteq> [] \<Longrightarrow> drop 1 (addChar c xs) = drop 1 xs"
  by (cases xs) simp_all

lemma splitLines_header:
  "CHR 0x0A \<notin> set h \<Longrightarrow> drop 1 (splitLines (h @ CHR 0x0A # r)) = splitLines r"
proof (induction h)
  case Nil
  show ?case by (cases r) simp_all
next
  case (Cons c h)
  obtain d cs where rest: "h @ CHR 0x0A # r = d # cs"
    by (cases h) auto
  have c: "c \<noteq> CHR 0x0A" and h: "CHR 0x0A \<notin> set h"
    using Cons.prems by auto
  show ?case
  proof (cases "c = CHR 0x0D \<and> d = CHR 0x0A")
    case True
    then have "h = []"
      using rest h by (cases h) auto
    then show ?thesis
      using True by simp
  next
    case False
    then have "splitLines (c # d # cs) = addChar c (splitLines (d # cs))"
      using c by auto
    then have "drop 1 (splitLines (c # d # cs)) = drop 1 (splitLines (d # cs))"
      by (simp only: drop_addChar [OF splitLines_nonempty])
    also have "\<dots> = splitLines r"
      using Cons.IH [OF h] by (simp only: rest)
    finally show ?thesis
      by (simp only: append_Cons rest)
  qed
qed

lemma trim_header:
  assumes "\<exists>c \<in> set h. \<not> isWhiteSpace c"
  shows "trim (h @ CHR 0x0A # '',,'') = dropWhile isWhiteSpace h @ CHR 0x0A # '',,''"
proof -
  from assms obtain c where c: "c \<in> set h" "\<not> isWhiteSpace c" by blast
  have a: "dropWhile isWhiteSpace (h @ CHR 0x0A # '',,'') = dropWhile isWhiteSpace h @ CHR 0x0A # '',,''"
    using c by (rule dropWhile_append1)
  have b: "\<not> isWhiteSpace CHR '',''"
    by (simp add: isWhiteSpace_def)
  show ?thesis
    by (simp add: trim_def a b)
qed

text \<open>
  C7. On the input made of the header \<open>gap_y,gap_height,time\<close> and the rows
  \<open>0.5,0.25,2\<close> and \<open>0.25,0.5,1\<close>, separated by line feeds (\<open>csvExample\<close>),
  \<open>parsePipeCSV\<close> returns exactly two pipes in row order: the first with
  \<open>x = 1100\<close>, \<open>gapY = 200\<close>, \<open>gapHeight = 100\<close>, the second with \<open>x = 850\<close>,
  \<open>gapY = 100\<close>, \<open>gapHeight = 200\<close>, both with \<open>passed = false\<close>.
\<close>

theorem parsePipeCSV_example:
  "parsePipeCSV csvExample =
     [\<lparr> pipeX = 1100, gapY = 200, gapHeight = 100, passed = False \<rparr>,
      \<lparr> pipeX = 850, gapY = 100, gapHeight = 200, passed = False \<rparr>]"
  by (simp add: parsePipeCSV_def trim_csvExample lines_csvExample cols_examples
        Number_examples isFinite_def toPipe_def)

text \<open>
  C10 (as amended).  \<open>Number\<close> of the empty string is the finite number 0, so a
  data line \<open>",,"\<close> passes the filter: for every header line with no line feed
  in it and at least one character that is not white space, the input made of
  the header, a line feed and \<open>",,"\<close> gives exactly one pipe, with \<open>x = 600\<close>,
  \<open>gapY = 0\<close>, \<open>gapHeight = 0\<close> and \<open>passed = false\<close>.
\<close>

theorem parsePipeCSV_keeps_empty_fields:
  assumes visible: "\<exists>c \<in> set header. \<not> isWhiteSpace c"
    and line: "CHR 0x0A \<notin> set header"
  shows "Number [] = Some 0
    \<and> parsePipeCSV (header @ CHR 0x0A # '',,'') =
        [\<lparr> pipeX = 600, gapY = 0, gapHeight = 0, passed = False \<rparr>]"
proof -
  have "CHR 0x0A \<notin> set (dropWhile isWhiteSpace header)"
    using line set_dropWhileD by fastforce
  then have "drop 1 (splitLines (dropWhile isWhiteSpace header @ CHR 0x0A # '',,'')) = splitLines '',,''"
    by (rule splitLines_header)
  then have "drop 1 (splitLines (trim (header @ CHR 0x0A # '',,''))) = splitLines '',,''"
    by (simp only: trim_header [OF visible])
  then have "parsePipeCSV (header @ CHR 0x0A # '',,'') =
        [\<lparr> pipeX = 600, gapY = 0, gapHeight = 0, passed = False \<rparr>]"
    by (simp add: parsePipeCSV_def cols_examples Number_empty isFinite_def toPipe_def)
  then show ?thesis
    by (simp add: Number_empty)
qed

theorem parsePipeCSV_keeps_empty_fields_witness:
  "parsePipeCSV csvEmptyFields = [\<lparr> pipeX = 600, gapY = 0, gapHeight = 0, passed = False \<rparr>]"
proof -
  have visible: "\<exists>c \<in> set ''gap_y,gap_height,time''. \<not> isWhiteSpace c"
    by (simp add: isWhiteSpace_def)
  have line: "CHR 0x0A \<notin> set ''gap_y,gap_height,time''"
    by simp
  show ?thesis
    using parsePipeCSV_keeps_empty_fields [OF visible line]
    by (simp add: csvEmptyFields_def)
qed

text \<open>
  C10 as stated fails for an empty header line: \<open>trim\<close> removes the leading
  line feed, the line \<open>",,"\<close> is then the first line and is dropped as the
  header, and no pipe is returned.
\<close>

theorem parsePipeCSV_empty_header_counterexample:
  "parsePipeCSV ([] @ CHR 0x0A # '',,'') = []"
  by (simp add: parsePipeCSV_def trim_def isWhiteSpace_def)

end
